theory Spec2Isabelle
  imports Main "HOL-Library.Char_ord" "HOL-Library.List_Lexorder"
begin

section \<open>Strings of the scripts\<close>

text \<open>
  A script string is a \<open>string\<close>, one \<open>char\<close> per code unit, which covers the code
  units up to U+00FF. The few characters of the scripts' literals beyond them (the dash of
  the HTTP message, the pictographs of the button labels) are written by their UTF-8
  bytes; these literals are only ever concatenated and compared for equality.
\<close>

definition isDigit :: "char \<Rightarrow> bool" where
  \<comment> \<open>the class \<open>\d\<close> of a regular expression: the ten ASCII digits\<close>
  "isDigit c = (c \<in> set ''0123456789'')"

definition digitVal :: "char \<Rightarrow> nat" where
  "digitVal c = of_char c - 48"

definition Number :: "string \<Rightarrow> nat" where
  \<comment> \<open>\<open>Number(s)\<close> on a string of decimal digits, the only strings the scripts convert
      (the hour labels, see \<open>matchesHHMM\<close>); other strings are outside this model\<close>
  "Number s = foldl (\<lambda>acc c. 10 * acc + digitVal c) 0 s"

fun showNat :: "nat \<Rightarrow> string" where
  \<comment> \<open>a non-negative integer inside a template literal: its decimal digits\<close>
  "showNat n = (if n < 10 then [''0123456789'' ! n]
                else showNat (n div 10) @ [''0123456789'' ! (n mod 10)])"

declare showNat.simps [simp del]

fun split :: "char \<Rightarrow> string \<Rightarrow> string list" where
  \<comment> \<open>\<open>s.split(sep)\<close> for a one-character separator\<close>
  "split sep [] = [[]]"
| "split sep (c # cs) =
     (if c = sep then [] # split sep cs
      else (case split sep cs of w # ws \<Rightarrow> (c # w) # ws | [] \<Rightarrow> [[c]]))"

definition matchesHHMM :: "string \<Rightarrow> bool" where
  \<comment> \<open>\<open>/^\d{2}:\d{2}$/.test(t)\<close>\<close>
  "matchesHHMM t =
     (case t of
        [a, b, c, d, e] \<Rightarrow> isDigit a \<and> isDigit b \<and> c = CHR '':'' \<and> isDigit d \<and> isDigit e
      | _ \<Rightarrow> False)"

section \<open>public_intake.js: buckets and sections\<close>

datatype bucket = Morning | Afternoon | Evening

definition bucketOfHour :: "string \<Rightarrow> bucket" where
  "bucketOfHour h =
     (let hh = Number h in
      if hh \<ge> 5 \<and> hh \<le> 11 then Morning
      else if hh \<ge> 12 \<and> hh \<le> 17 then Afternoon
      else Evening)"

record hour_group =
  hour :: string
  slot_list :: "string list"

record by_bucket =
  morning :: "hour_group list"
  afternoon :: "hour_group list"
  evening :: "hour_group list"

definition setOf :: "string list \<Rightarrow> string list" where
  \<comment> \<open>\<open>[...new Set(xs)]\<close>: each value once, in the order of its first occurrence\<close>
  "setOf xs = foldl (\<lambda>acc x. if x \<in> set acc then acc else acc @ [x]) [] xs"

definition cleaned :: "string list \<Rightarrow> string list" where
  \<comment> \<open>\<open>filter(Boolean)\<close> drops the empty string; \<open>localeCompare\<close> on strings of the one
      shape \<open>dd:dd\<close> orders them digit by digit, which is the order of the code units\<close>
  "cleaned slots = sort (filter matchesHHMM (setOf (filter (\<lambda>t. t \<noteq> []) slots)))"

definition hourLabel :: "string \<Rightarrow> string" where
  \<comment> \<open>\<open>const [hh] = t.split(':')\<close>\<close>
  "hourLabel t = hd (split CHR '':'' t)"

definition pushByHour :: "(string \<times> string list) list \<Rightarrow> string \<Rightarrow> (string \<times> string list) list" where
  \<comment> \<open>\<open>(byHour[hh] ??= []).push(t)\<close> on an object kept as its properties in creation order\<close>
  "pushByHour byHour t =
     (let hh = hourLabel t in
      case map_of byHour hh of
        None \<Rightarrow> byHour @ [(hh, [t])]
      | Some l \<Rightarrow> map (\<lambda>(k, v). if k = hh then (k, v @ [t]) else (k, v)) byHour)"

definition groupByHour :: "string list \<Rightarrow> (string \<times> string list) list" where
  "groupByHour ts = foldl pushByHour [] ts"

definition isArrayIndex :: "string \<Rightarrow> bool" where
  \<comment> \<open>a property name that is a canonical array index: decimal, no leading zero,
      below \<open>2^32 - 1\<close>\<close>
  "isArrayIndex k =
     (k \<noteq> [] \<and> list_all isDigit k \<and> (k = ''0'' \<or> hd k \<noteq> CHR ''0'') \<and> Number k < 4294967295)"

definition ObjectKeys :: "(string \<times> 'v) list \<Rightarrow> string list" where
  \<comment> \<open>\<open>Object.keys(o)\<close>: the array-index names in ascending numeric order, then the other
      names in creation order\<close>
  "ObjectKeys obj =
     sort_key Number (filter isArrayIndex (map fst obj))
       @ filter (\<lambda>k. \<not> isArrayIndex k) (map fst obj)"

definition hourGroup :: "(string \<times> string list) list \<Rightarrow> string \<Rightarrow> hour_group" where
  \<comment> \<open>\<open>{ hour: hh, list: byHour[hh] }\<close>, for a name \<open>hh\<close> of \<open>byHour\<close>\<close>
  "hourGroup byHour hh =
     \<lparr>hour = hh, slot_list = (case map_of byHour hh of Some l \<Rightarrow> l | None \<Rightarrow> [])\<rparr>"

definition pushBucket :: "(string \<times> string list) list \<Rightarrow> by_bucket \<Rightarrow> string \<Rightarrow> by_bucket" where
  \<comment> \<open>\<open>byBucket[bucketOfHour(hh)].push({ hour: hh, list: byHour[hh] })\<close>\<close>
  "pushBucket byHour byBucket hh =
     (case bucketOfHour hh of
        Morning \<Rightarrow> byBucket\<lparr>morning := morning byBucket @ [hourGroup byHour hh]\<rparr>
      | Afternoon \<Rightarrow> byBucket\<lparr>afternoon := afternoon byBucket @ [hourGroup byHour hh]\<rparr>
      | Evening \<Rightarrow> byBucket\<lparr>evening := evening byBucket @ [hourGroup byHour hh]\<rparr>)"

definition sortByHour :: "hour_group list \<Rightarrow> hour_group list" where
  \<comment> \<open>\<open>arr.sort((a,b)=> Number(a.hour)-Number(b.hour))\<close>, a stable sort\<close>
  "sortByHour arr = sort_key (\<lambda>g. Number (hour g)) arr"

definition buildSections :: "string list \<Rightarrow> by_bucket" where
  "buildSections slots =
     (let byHour = groupByHour (cleaned slots);
          byBucket = foldl (pushBucket byHour)
                       \<lparr>morning = [], afternoon = [], evening = []\<rparr> (ObjectKeys byHour)
      in \<lparr>morning = sortByHour (morning byBucket),
          afternoon = sortByHour (afternoon byBucket),
          evening = sortByHour (evening byBucket)\<rparr>)"

definition sectionsOf :: "by_bucket \<Rightarrow> bucket \<Rightarrow> hour_group list" where
  \<comment> \<open>\<open>sectionsByBucket[bucketKey]\<close>\<close>
  "sectionsOf bb b = (case b of Morning \<Rightarrow> morning bb | Afternoon \<Rightarrow> afternoon bb | Evening \<Rightarrow> evening bb)"


section \<open>public_intake.js: fetching the slots of a day\<close>

datatype js_error = JsError (err_name: string) (message: string)

definition errText :: "js_error \<Rightarrow> string" where
  \<comment> \<open>\<open>e.message || String(e)\<close>; \<open>String(e)\<close> of an error without message is its name\<close>
  "errText e = (if message e \<noteq> [] then message e else err_name e)"

datatype 'r fetch_outcome = Rejected js_error | Resolved 'r

record 'd response =
  status :: nat
  body :: "js_error + string"
  json :: "js_error + 'd"
  \<comment> \<open>\<open>body\<close>: what \<open>await resp.text()\<close> gives, \<open>Inl\<close> the error it rejects with;
      \<open>json\<close>: what \<open>await resp.json()\<close> and the reading of the expected property give,
      \<open>Inl\<close> the exception raised there; the property is \<open>None\<close> when it is missing or
      falsy\<close>

definition ok :: "'d response \<Rightarrow> bool" where
  \<comment> \<open>\<open>resp.ok\<close>: the status is in the range 200 to 299\<close>
  "ok resp = (200 \<le> status resp \<and> status resp \<le> 299)"

definition SLOTS_URL :: "string \<Rightarrow> string option \<Rightarrow> string" where
  \<comment> \<open>the path the requests go to; the URL parser may rewrite it (it percent-encodes
      and normalises), so \<open>url.pathname\<close> is an argument of its own below\<close>
  "SLOTS_URL SHOP BARBER =
     (case BARBER of
        Some b \<Rightarrow> ''/pub/'' @ SHOP @ ''/'' @ b @ ''/slots/''
      | None \<Rightarrow> ''/pub/'' @ SHOP @ ''/slots/'')"

definition en_dash :: string where
  \<comment> \<open>U+2013\<close>
  "en_dash = [CHR 0xE2, CHR 0x80, CHR 0x93]"

record tab =
  tab_key :: bucket
  tab_text :: string
  tab_active :: bool

record hour_section =
  summary_label :: string
  summary_count :: string
  chips :: "string list"
  content_shown :: bool

datatype grid_child = Tabs "tab list" | NoSlotsInPeriod | HourSection hour_section

record slots_state =
  sectionsByBucket :: by_bucket
  activeBucket :: bucket
  dayStr :: string

record page =
  slotsErr_hidden :: bool
  errDetail :: string
  slotsEmpty_hidden :: bool
  slotsGrid :: "grid_child list"
  slotsSkeleton_hidden :: bool
  toStep4_disabled :: bool
  inicio :: string
  slotsWrap_ready :: bool
  slotsState :: slots_state
  console_error :: "js_error list"

definition slotsState_initial :: slots_state where
  \<comment> \<open>\<open>let slotsState = { sectionsByBucket: {}, activeBucket: 'morning', dayStr: '' }\<close>;
      a bucket missing from the object reads as no section\<close>
  "slotsState_initial =
     \<lparr>sectionsByBucket = \<lparr>morning = [], afternoon = [], evening = []\<rparr>,
      activeBucket = Morning, dayStr = []\<rparr>"

definition page_initial :: page where
  \<comment> \<open>the third step of the wizard before any day is chosen\<close>
  "page_initial =
     \<lparr>slotsErr_hidden = True, errDetail = [], slotsEmpty_hidden = True, slotsGrid = [],
      slotsSkeleton_hidden = True, toStep4_disabled = True, inicio = [],
      slotsWrap_ready = False, slotsState = slotsState_initial, console_error = []\<rparr>"

definition renderTabs :: "bucket \<Rightarrow> (bucket \<Rightarrow> nat) \<Rightarrow> grid_child" where
  "renderTabs activeKey counts =
     Tabs (map (\<lambda>(key, label).
                  \<lparr>tab_key = key,
                   tab_text = label @ (if counts key \<noteq> 0 then '' ('' @ showNat (counts key) @ '')'' else []),
                   tab_active = (key = activeKey)\<rparr>)
             [(Morning, ''Manh'' @ [CHR 0xE3]), (Afternoon, ''Tarde''), (Evening, ''Noite'')])"

definition renderSections :: "bucket \<Rightarrow> page \<Rightarrow> page" where
  \<comment> \<open>the grid is emptied but for its first child, the tabs\<close>
  "renderSections bucketKey p =
     (let p1 = p\<lparr>slotsState := (slotsState p)\<lparr>activeBucket := bucketKey\<rparr>\<rparr>;
          tabs = take 1 (slotsGrid p1);
          sections = sectionsOf (sectionsByBucket (slotsState p1)) bucketKey
      in if sections = [] then p1\<lparr>slotsGrid := tabs @ [NoSlotsInPeriod]\<rparr>
         else p1\<lparr>slotsGrid := tabs @
                    map (\<lambda>(idx, sec).
                           HourSection \<lparr>summary_label = hour sec @ '':00'',
                                        summary_count = showNat (length (slot_list sec)),
                                        chips = slot_list sec,
                                        content_shown = (idx = 0)\<rparr>)
                      (enumerate 0 sections),
                 slotsWrap_ready := True\<rparr>)"

definition countOf :: "by_bucket \<Rightarrow> bucket \<Rightarrow> nat" where
  \<comment> \<open>\<open>sectionsByBucket[b].reduce((acc,s)=>acc+s.list.length,0)\<close>\<close>
  "countOf bb b = foldl (\<lambda>acc s. acc + length (slot_list s)) 0 (sectionsOf bb b)"

definition guessBucket :: "nat \<Rightarrow> bucket" where
  \<comment> \<open>the argument is \<open>now.getHours()\<close>\<close>
  "guessBucket h = [Morning, Afternoon, Evening] ! (if h < 12 then 0 else if h < 18 then 1 else 2)"

definition initialBucketOf :: "(bucket \<Rightarrow> nat) \<Rightarrow> bucket \<Rightarrow> bucket" where
  "initialBucketOf counts guess =
     (if counts guess \<noteq> 0 then guess
      else if counts Morning \<noteq> 0 then Morning
      else if counts Afternoon \<noteq> 0 then Afternoon
      else Evening)"

definition fetchSlotsFor_try ::
  "string \<Rightarrow> nat \<Rightarrow> (string list option) response fetch_outcome \<Rightarrow> page
     \<Rightarrow> js_error + page" where
  \<comment> \<open>the body of the \<open>try\<close>: \<open>Inl\<close> is the exception that reaches the \<open>catch\<close>;
      the first argument is \<open>url.pathname\<close>, the second \<open>now.getHours()\<close>\<close>
  "fetchSlotsFor_try pathname nowHours outcome p =
     (case outcome of
        Rejected e \<Rightarrow> Inl e
      | Resolved resp \<Rightarrow>
          if \<not> ok resp then
            (case body resp of
               Inl e \<Rightarrow> Inl e
             | Inr txt \<Rightarrow>
                 Inl (JsError ''Error''
                        (''HTTP '' @ showNat (status resp) @ '' em '' @ pathname
                           @ '' '' @ en_dash @ '' '' @ take 140 txt)))
          else
            (case json resp of
               Inl e \<Rightarrow> Inl e
             | Inr data \<Rightarrow>
                 let slots = (case data of Some s \<Rightarrow> s | None \<Rightarrow> []) in
                 if slots = [] then Inr (p\<lparr>slotsEmpty_hidden := False\<rparr>)
                 else
                   let sectionsByBucket = buildSections slots;
                       p1 = p\<lparr>slotsState := (slotsState p)\<lparr>sectionsByBucket := sectionsByBucket\<rparr>\<rparr>;
                       counts = countOf sectionsByBucket;
                       guess = guessBucket nowHours;
                       initialBucket = initialBucketOf counts guess;
                       tabs = renderTabs initialBucket counts;
                       p2 = p1\<lparr>slotsGrid := slotsGrid p1 @ [tabs]\<rparr>
                   in Inr (renderSections initialBucket p2)))"

definition fetchSlotsFor ::
  "string \<Rightarrow> nat \<Rightarrow> string \<Rightarrow> (string list option) response fetch_outcome \<Rightarrow> page
     \<Rightarrow> page" where
  \<comment> \<open>the first argument is \<open>url.pathname\<close> of the URL made of \<open>SLOTS_URL()\<close>, the second
      \<open>now.getHours()\<close>\<close>
  "fetchSlotsFor pathname nowHours dateStr outcome p =
     (let p0 = p\<lparr>slotsErr_hidden := True, errDetail := [], slotsEmpty_hidden := True,
                 slotsGrid := [], slotsSkeleton_hidden := False, toStep4_disabled := True,
                 inicio := [], slotsWrap_ready := False,
                 slotsState := (slotsState p)\<lparr>dayStr := dateStr\<rparr>\<rparr>;
          p1 = (case fetchSlotsFor_try pathname nowHours outcome p0 of
                  Inr p' \<Rightarrow> p'
                | Inl e \<Rightarrow> p0\<lparr>slotsErr_hidden := False, errDetail := errText e,
                               console_error := console_error p0 @ [e]\<rparr>)
      in p1\<lparr>slotsSkeleton_hidden := True\<rparr>)"

section \<open>public_intake.js: the month precheck\<close>

record day_btn =
  day :: nat
  day_disabled :: bool

record calendar =
  day_btns :: "day_btn list"
  console_warn :: "js_error list"

definition precheckMonthAvailability ::
  "string \<Rightarrow> (int list option) response fetch_outcome \<Rightarrow> calendar \<Rightarrow> calendar" where
  \<comment> \<open>the first argument is \<open>servicoSel.value\<close>; a day button shows its day number, which
      \<open>parseInt\<close> reads back; \<open>resp.ok\<close> is not looked at\<close>
  "precheckMonthAvailability servicoValue outcome cal =
     (if servicoValue = [] then cal
      else
        case (case outcome of
                Rejected e \<Rightarrow> Inl e
              | Resolved resp \<Rightarrow>
                  (case json resp of
                     Inl e \<Rightarrow> Inl e
                   | Inr data \<Rightarrow> Inr (case data of Some days \<Rightarrow> days | None \<Rightarrow> [])))
        of
          Inl e \<Rightarrow> cal\<lparr>console_warn := console_warn cal @ [e]\<rparr>
        | Inr allowed \<Rightarrow>
            cal\<lparr>day_btns := map (\<lambda>btn. if int (day btn) \<notin> set allowed
                                          then btn\<lparr>day_disabled := True\<rparr> else btn)
                                (day_btns cal)\<rparr>)"

section \<open>public_intake.js: the wizard and its submission\<close>

definition isWhiteSpace :: "char \<Rightarrow> bool" where
  \<comment> \<open>the white space and line terminators that \<open>trim\<close> strips, as far as one \<open>char\<close> goes\<close>
  "isWhiteSpace c = (c \<in> set [CHR 0x09, CHR 0x0A, CHR 0x0B, CHR 0x0C, CHR 0x0D, CHR 0x20, CHR 0xA0])"

definition trim :: "string \<Rightarrow> string" where
  "trim s = rev (dropWhile isWhiteSpace (rev (dropWhile isWhiteSpace s)))"

record form_page =
  telefone :: "string option"
  servico :: "string option"
  submit_value :: string
  visible_step :: nat
  active_label :: nat
  progress_width :: string
  form_alerts :: "string list"
  \<comment> \<open>\<open>telefone\<close>, \<open>servico\<close>: the value of the field, \<open>None\<close> when the page has no such
      element; \<open>submit_value\<close>: the value of the hidden field \<open>_submit\<close>\<close>

definition setProgress :: "nat \<Rightarrow> string" where
  "setProgress step =
     (case map_of [(1, ''25%''), (2, ''50%''), (3, ''75%''), (4, ''100%'')] step of
        Some w \<Rightarrow> w | None \<Rightarrow> ''25%'')"

definition showStep :: "nat \<Rightarrow> form_page \<Rightarrow> form_page" where
  "showStep n p = p\<lparr>visible_step := n, active_label := n, progress_width := setProgress n\<rparr>"

definition submitClick :: "form_page \<Rightarrow> form_page \<times> bool" where
  \<comment> \<open>the second component tells whether the handler called \<open>e.preventDefault()\<close>, which
      cancels the submission of the form that the click would start\<close>
  "submitClick p =
     (let telOk = (case telefone p of Some v \<Rightarrow> trim v \<noteq> [] | None \<Rightarrow> False);
          srvOk = (case servico p of Some v \<Rightarrow> v \<noteq> [] | None \<Rightarrow> False)
      in if \<not> telOk \<or> \<not> srvOk then
           (let p1 = showStep 1 p
            in (p1\<lparr>form_alerts := form_alerts p1 @ [''Preencha WhatsApp e Servi'' @ [CHR 0xE7] @ ''o.'']\<rparr>,
                True))
         else (p\<lparr>submit_value := ''1''\<rparr>, False))"

section \<open>solicitacoes.js: the staff actions\<close>

record button =
  disabled :: bool
  textContent :: string
  dataset :: "(string \<times> string) list"

record request =
  req_url :: string
  req_body :: "(string \<times> string) list"

record staff_page =
  btn :: button
  alerts :: "string list"
  reloads :: nat
  requests :: "request list"
  \<comment> \<open>\<open>btn\<close>: the button handed to the action; \<open>reloads\<close>: the calls of
      \<open>location.reload()\<close>; \<open>requests\<close>: the calls of \<open>fetch\<close>\<close>

definition postForm ::
  "string option \<Rightarrow> (string \<times> string) list \<Rightarrow> unit response fetch_outcome \<Rightarrow> request list
     \<Rightarrow> (js_error + unit) \<times> request list" where
  \<comment> \<open>the parsed reply, which no caller reads, is left out of the result\<close>
  "postForm url dataObj outcome reqs =
     (case (case url of Some u \<Rightarrow> if u = [] then None else Some u | None \<Rightarrow> None) of
        None \<Rightarrow> (Inl (JsError ''Error'' ''URL ausente''), reqs)
      | Some u \<Rightarrow>
          let reqs' = reqs @ [\<lparr>req_url = u, req_body = dataObj\<rparr>] in
          case outcome of
            Rejected e \<Rightarrow> (Inl e, reqs')
          | Resolved resp \<Rightarrow>
              if \<not> ok resp then
                (case body resp of
                   Inl e \<Rightarrow> (Inl e, reqs')
                 | Inr txt \<Rightarrow>
                     (Inl (JsError ''Error'' (''HTTP '' @ showNat (status resp) @ '' - '' @ txt)), reqs'))
              else (Inr (), reqs'))"

definition attr :: "button \<Rightarrow> string \<Rightarrow> string" where
  \<comment> \<open>\<open>btn.dataset.name || ''\<close>\<close>
  "attr b name = (case map_of (dataset b) name of Some v \<Rightarrow> v | None \<Rightarrow> [])"

definition label_confirm :: string where
  "label_confirm = [CHR 0xE2, CHR 0x9C, CHR 0x85] @ '' Confirmar''"

definition label_deny :: string where
  "label_deny = [CHR 0xE2, CHR 0x9D, CHR 0x8C] @ '' Negar''"

definition label_finalize :: string where
  "label_finalize = [CHR 0xF0, CHR 0x9F, CHR 0x8F, CHR 0x81] @ '' Finalizar''"

definition label_noshow :: string where
  "label_noshow = [CHR 0xF0, CHR 0x9F, CHR 0x9A, CHR 0xAB] @ '' No-show''"

definition settle :: "string \<Rightarrow> string \<Rightarrow> (js_error + unit) \<times> request list \<Rightarrow> staff_page \<Rightarrow> staff_page" where
  \<comment> \<open>what the four actions do once \<open>postForm\<close> has settled: \<open>location.reload()\<close> or the
      \<open>catch\<close>, then the \<open>finally\<close> with the action's label\<close>
  "settle errPrefix label res p =
     (let p1 = p\<lparr>requests := snd res\<rparr>;
          p2 = (case fst res of
                  Inr _ \<Rightarrow> p1\<lparr>reloads := reloads p1 + 1\<rparr>
                | Inl e \<Rightarrow> p1\<lparr>alerts := alerts p1 @ [errPrefix @ message e]\<rparr>)
      in p2\<lparr>btn := (btn p2)\<lparr>disabled := False, textContent := label\<rparr>\<rparr>)"

definition openConfirm :: "unit response fetch_outcome \<Rightarrow> staff_page \<Rightarrow> staff_page" where
  "openConfirm outcome p =
     (let url = map_of (dataset (btn p)) ''confirmUrl'';
          servicoId = attr (btn p) ''servicoId'';
          precoCotado = attr (btn p) ''preco'';
          inicioAttr = attr (btn p) ''inicio'';
          payload = [(''servico_id'', servicoId), (''preco_cotado'', precoCotado)]
                      @ (if inicioAttr \<noteq> [] then [(''inicio'', inicioAttr)] else []);
          p1 = p\<lparr>btn := (btn p)\<lparr>disabled := True, textContent := ''Confirmando...''\<rparr>\<rparr>
      in settle ''Erro ao confirmar: '' label_confirm (postForm url payload outcome (requests p1)) p1)"

definition openDeny :: "string option \<Rightarrow> unit response fetch_outcome \<Rightarrow> staff_page \<Rightarrow> staff_page" where
  \<comment> \<open>the first argument is what \<open>prompt\<close> returns: \<open>None\<close> when the operator cancels it\<close>
  "openDeny answer outcome p =
     (let url = map_of (dataset (btn p)) ''denyUrl'';
          motivo = (case answer of Some m \<Rightarrow> m | None \<Rightarrow> []);
          p1 = p\<lparr>btn := (btn p)\<lparr>disabled := True, textContent := ''Negando...''\<rparr>\<rparr>
      in settle ''Erro ao negar: '' label_deny (postForm url [(''motivo'', motivo)] outcome (requests p1)) p1)"

definition submitFinalize :: "bool \<Rightarrow> unit response fetch_outcome \<Rightarrow> staff_page \<Rightarrow> staff_page" where
  \<comment> \<open>the first argument is what \<open>confirm\<close> returns\<close>
  "submitFinalize answer outcome p =
     (let url = map_of (dataset (btn p)) ''finalizeUrl'' in
      if \<not> answer then p\<lparr>btn := (btn p)\<lparr>disabled := False, textContent := label_finalize\<rparr>\<rparr>
      else
        let p1 = p\<lparr>btn := (btn p)\<lparr>disabled := True, textContent := ''Finalizando...''\<rparr>\<rparr>
        in settle ''Erro ao finalizar: '' label_finalize (postForm url [] outcome (requests p1)) p1)"

definition submitNoShow :: "bool \<Rightarrow> unit response fetch_outcome \<Rightarrow> staff_page \<Rightarrow> staff_page" where
  "submitNoShow answer outcome p =
     (let url = map_of (dataset (btn p)) ''noshowUrl'' in
      if \<not> answer then p\<lparr>btn := (btn p)\<lparr>disabled := False, textContent := label_noshow\<rparr>\<rparr>
      else
        let p1 = p\<lparr>btn := (btn p)\<lparr>disabled := True, textContent := ''Marcando...''\<rparr>\<rparr>
        in settle ''Erro ao marcar no-show: '' label_noshow (postForm url [] outcome (requests p1)) p1)"

section \<open>Notions of the specification\<close>

definition hourOfDay :: "string \<Rightarrow> nat" where
  \<comment> \<open>the hour-of-day of a time \<open>HH:MM\<close>: the number its first two digits write\<close>
  "hourOfDay t = 10 * digitVal (t ! 0) + digitVal (t ! 1)"

definition bucketsHolding :: "by_bucket \<Rightarrow> string \<Rightarrow> bucket list" where
  \<comment> \<open>the buckets with a group that lists the time\<close>
  "bucketsHolding bb t =
     filter (\<lambda>b. \<exists>g \<in> set (sectionsOf bb b). t \<in> set (slot_list g)) [Morning, Afternoon, Evening]"

definition allGroups :: "by_bucket \<Rightarrow> hour_group list" where
  "allGroups bb = morning bb @ afternoon bb @ evening bb"

definition allTimes :: "by_bucket \<Rightarrow> string list" where
  \<comment> \<open>every entry of every group\<close>
  "allTimes bb = concat (map slot_list (allGroups bb))"

definition firstNonEmpty :: "(bucket \<Rightarrow> nat) \<Rightarrow> bucket option" where
  \<comment> \<open>the first bucket with an entry, in the order morning, afternoon, evening\<close>
  "firstNonEmpty counts = find (\<lambda>b. counts b \<noteq> 0) [Morning, Afternoon, Evening]"

definition failure :: "unit response fetch_outcome \<Rightarrow> js_error option" where
  \<comment> \<open>a POST that fails: the network error, or for a reply whose status is not 2xx the
      error \<open>postForm\<close> makes of it (the error of reading its body, if that fails)\<close>
  "failure outcome =
     (case outcome of
        Rejected e \<Rightarrow> Some e
      | Resolved resp \<Rightarrow>
          if status resp < 200 \<or> 299 < status resp
          then (case body resp of
                  Inl e \<Rightarrow> Some e
                | Inr txt \<Rightarrow> Some (JsError ''Error'' (''HTTP '' @ showNat (status resp) @ '' - '' @ txt)))
          else None)"

section \<open>Pages to run the scripts on\<close>

definition form_page_step4 :: "string \<Rightarrow> string \<Rightarrow> form_page" where
  \<comment> \<open>the wizard at its last step, with the given telephone and service values\<close>
  "form_page_step4 tel srv =
     \<lparr>telefone = Some tel, servico = Some srv, submit_value = [], visible_step = 4,
      active_label = 4, progress_width = ''100%'', form_alerts = []\<rparr>"

definition staff_button :: "string \<Rightarrow> button" where
  \<comment> \<open>an enabled button with the given label and a URL for each action\<close>
  "staff_button label =
     \<lparr>disabled = False, textContent = label,
      dataset = [(''confirmUrl'', ''/s/5/confirmar/''), (''denyUrl'', ''/s/5/negar/''),
                 (''finalizeUrl'', ''/a/5/finalizar/''), (''noshowUrl'', ''/a/5/no-show/'')]\<rparr>"

definition staff_page_of :: "button \<Rightarrow> staff_page" where
  "staff_page_of b = \<lparr>btn = b, alerts = [], reloads = 0, requests = []\<rparr>"

definition calendar_two_days :: calendar where
  "calendar_two_days =
     \<lparr>day_btns = [\<lparr>day = 1, day_disabled = True\<rparr>, \<lparr>day = 2, day_disabled = False\<rparr>],
      console_warn = []\<rparr>"

section \<open>Cleaning the fetched slots\<close>

lemma isDigit_not_colon: "isDigit c \<Longrightarrow> c \<noteq> CHR '':''"
  by (auto simp: isDigit_def)

lemma matchesHHMM_shape:
  "matchesHHMM t \<longleftrightarrow> (\<exists>a b d e. t = [a, b, CHR '':'', d, e] \<and> isDigit a \<and> isDigit b \<and> isDigit d \<and> isDigit e)"
  by (auto simp: matchesHHMM_def split: list.splits)

lemma hourLabel_valid: "matchesHHMM t \<Longrightarrow> hourLabel t = take 2 t"
  by (auto simp: matchesHHMM_shape hourLabel_def dest: isDigit_not_colon)

lemma hourLabel_digits:
  "matchesHHMM t \<Longrightarrow> \<exists>a b. hourLabel t = [a, b] \<and> isDigit a \<and> isDigit b"
  by (auto simp: matchesHHMM_shape hourLabel_def dest: isDigit_not_colon)

lemma setOf_fold_set:
  "set (foldl (\<lambda>acc x. if x \<in> set acc then acc else acc @ [x]) acc xs) = set acc \<union> set xs"
  by (induction xs arbitrary: acc) auto

lemma setOf_fold_distinct:
  "distinct acc \<Longrightarrow> distinct (foldl (\<lambda>acc x. if x \<in> set acc then acc else acc @ [x]) acc xs)"
  by (induction xs arbitrary: acc) auto

lemma set_setOf: "set (setOf xs) = set xs"
  by (simp add: setOf_def setOf_fold_set)

lemma distinct_setOf: "distinct (setOf xs)"
  by (simp add: setOf_def setOf_fold_distinct)

lemma matchesHHMM_nonempty: "matchesHHMM t \<Longrightarrow> t \<noteq> []"
  by (auto simp: matchesHHMM_shape)

lemma set_cleaned: "set (cleaned slots) = {t \<in> set slots. matchesHHMM t}"
  by (auto simp: cleaned_def set_setOf dest: matchesHHMM_nonempty)

lemma distinct_cleaned: "distinct (cleaned slots)"
  by (simp add: cleaned_def distinct_setOf)

lemma sorted_cleaned: "sorted (cleaned slots)"
  by (simp add: cleaned_def)

lemma strict_sorted_cleaned: "sorted_wrt (<) (cleaned slots)"
  using sorted_cleaned distinct_cleaned by (simp add: strict_sorted_iff)

subsection \<open>Grouping by hour\<close>

lemma pushByHour_keys:
  "map fst (pushByHour m t) = (if hourLabel t \<in> set (map fst m) then map fst m else map fst m @ [hourLabel t])"
proof (cases "map_of m (hourLabel t)")
  case None
  moreover from None have "hourLabel t \<notin> fst ` set m" by (simp add: map_of_eq_None_iff)
  ultimately show ?thesis by (simp add: pushByHour_def Let_def)
next
  case (Some l)
  have "map fst (map (\<lambda>(k, v). if k = h then (k, v @ [t]) else (k, v)) m) = map fst m" for h
    by (induction m) auto
  moreover have "hourLabel t \<in> fst ` set m" using Some by (meson domI domIff map_of_eq_None_iff)
  ultimately show ?thesis using Some by (simp add: pushByHour_def)
qed

lemma pushByHour_lookup:
  "map_of (pushByHour m t) k =
     (if k = hourLabel t then Some ((case map_of m k of None \<Rightarrow> [] | Some l \<Rightarrow> l) @ [t]) else map_of m k)"
proof (cases "map_of m (hourLabel t)")
  case None
  then show ?thesis by (auto simp: pushByHour_def Let_def map_add_def split: option.splits)
next
  case (Some l)
  have "map_of (map (\<lambda>(k', v). if k' = h then (k', v @ [t]) else (k', v)) m) k
        = (if k = h then map_option (\<lambda>v. v @ [t]) (map_of m k) else map_of m k)" for h
    by (induction m) auto
  with Some show ?thesis by (auto simp: pushByHour_def Let_def)
qed

lemma groupByHour_fold_keys:
  "distinct (map fst m) \<Longrightarrow> distinct (map fst (foldl pushByHour m ts))
     \<and> set (map fst (foldl pushByHour m ts)) = set (map fst m) \<union> hourLabel ` set ts"
proof (induction ts arbitrary: m)
  case Nil then show ?case by simp
next
  case (Cons t ts)
  have "distinct (map fst (pushByHour m t))" using Cons.prems by (simp add: pushByHour_keys)
  from Cons.IH[OF this] show ?case by (auto simp: pushByHour_keys split: if_splits)
qed

lemma groupByHour_fold_lookup:
  "map_of (foldl pushByHour m ts) k =
     (if k \<in> fst ` set m \<union> hourLabel ` set ts
      then Some ((case map_of m k of None \<Rightarrow> [] | Some l \<Rightarrow> l) @ filter (\<lambda>t. hourLabel t = k) ts)
      else None)"
proof (induction ts arbitrary: m)
  case Nil
  then show ?case by (auto simp: map_of_eq_None_iff split: option.splits)
next
  case (Cons t ts)
  have keys: "fst ` set (pushByHour m t) = insert (hourLabel t) (fst ` set m)"
    using pushByHour_keys[of m t] by (metis (no_types, lifting) Un_insert_right append_Nil2 insert_absorb list.set_map list.simps(15) set_append)
  show ?case
    by (simp add: Cons.IH keys pushByHour_lookup)
qed

lemma groupByHour_keys:
  "distinct (map fst (groupByHour ts))" "set (map fst (groupByHour ts)) = hourLabel ` set ts"
  using groupByHour_fold_keys[of "[]" ts] by (simp_all add: groupByHour_def)

lemma groupByHour_lookup:
  "map_of (groupByHour ts) k =
     (if k \<in> hourLabel ` set ts then Some (filter (\<lambda>t. hourLabel t = k) ts) else None)"
  by (simp add: groupByHour_def groupByHour_fold_lookup)

subsection \<open>Buckets and their order\<close>

lemma set_ObjectKeys: "set (ObjectKeys obj) = fst ` set obj"
  by (auto simp: ObjectKeys_def)

lemma distinct_ObjectKeys: "distinct (map fst obj) \<Longrightarrow> distinct (ObjectKeys obj)"
  by (auto simp: ObjectKeys_def distinct_map_filter)

lemma pushBucket_fold:
  "foldl (pushBucket byHour) bb ks =
     \<lparr>morning = morning bb @ map (hourGroup byHour) (filter (\<lambda>k. bucketOfHour k = Morning) ks),
      afternoon = afternoon bb @ map (hourGroup byHour) (filter (\<lambda>k. bucketOfHour k = Afternoon) ks),
      evening = evening bb @ map (hourGroup byHour) (filter (\<lambda>k. bucketOfHour k = Evening) ks)\<rparr>"
  by (induction ks arbitrary: bb) (auto simp: pushBucket_def split: bucket.splits)

lemma sectionsOf_buildSections:
  "sectionsOf (buildSections slots) b =
     sortByHour (map (hourGroup (groupByHour (cleaned slots)))
       (filter (\<lambda>k. bucketOfHour k = b) (ObjectKeys (groupByHour (cleaned slots)))))"
  by (cases b) (simp_all add: sectionsOf_def buildSections_def Let_def pushBucket_fold)

lemma hourGroup_groupByHour:
  "k \<in> hourLabel ` set ts \<Longrightarrow>
     hourGroup (groupByHour ts) k = \<lparr>hour = k, slot_list = filter (\<lambda>t. hourLabel t = k) ts\<rparr>"
  by (simp add: hourGroup_def groupByHour_lookup)

lemma keys_groupByHour: "fst ` set (groupByHour ts) = hourLabel ` set ts"
  using groupByHour_keys(2)[of ts] by simp

lemma set_sectionsOf:
  "set (sectionsOf (buildSections slots) b) =
     (\<lambda>k. \<lparr>hour = k, slot_list = filter (\<lambda>t. hourLabel t = k) (cleaned slots)\<rparr>)
       ` {k \<in> hourLabel ` set (cleaned slots). bucketOfHour k = b}"
proof -
  have "set (sectionsOf (buildSections slots) b) =
      hourGroup (groupByHour (cleaned slots)) ` {k \<in> hourLabel ` set (cleaned slots). bucketOfHour k = b}"
    by (simp add: sectionsOf_buildSections sortByHour_def set_ObjectKeys keys_groupByHour)
  also have "\<dots> = (\<lambda>k. \<lparr>hour = k, slot_list = filter (\<lambda>t. hourLabel t = k) (cleaned slots)\<rparr>)
       ` {k \<in> hourLabel ` set (cleaned slots). bucketOfHour k = b}"
    by (rule image_cong) (auto simp: hourGroup_groupByHour)
  finally show ?thesis .
qed

lemma hours_sectionsOf:
  "map hour (map (hourGroup byHour) ks) = ks"
  by (induction ks) (auto simp: hourGroup_def)

lemma isDigit_code: "isDigit c \<Longrightarrow> 48 \<le> (of_char c :: nat) \<and> (of_char c :: nat) \<le> 57"
  by (auto simp: isDigit_def)

lemma digitVal_less: "isDigit c \<Longrightarrow> digitVal c < 10"
  using isDigit_code[of c] unfolding digitVal_def by linarith

lemma digitVal_inj:
  assumes "isDigit a" "isDigit b" "digitVal a = digitVal b"
  shows "a = b"
proof -
  have "(of_char a :: nat) = of_char b"
    using isDigit_code[OF assms(1)] isDigit_code[OF assms(2)] assms(3) unfolding digitVal_def by linarith
  then show ?thesis by simp
qed

lemma Number_two: "Number [a, b] = 10 * digitVal a + digitVal b"
  by (simp add: Number_def)

lemma Number_hourLabel: "matchesHHMM t \<Longrightarrow> Number (hourLabel t) = hourOfDay t"
  by (auto simp: matchesHHMM_shape hourLabel_def hourOfDay_def Number_two dest: isDigit_not_colon)

lemma Number_inj_labels:
  "inj_on Number (hourLabel ` {t. matchesHHMM t})"
proof (rule inj_onI)
  fix x y assume "x \<in> hourLabel ` {t. matchesHHMM t}" "y \<in> hourLabel ` {t. matchesHHMM t}"
    and eq: "Number x = Number y"
  then obtain tx ty where t: "x = hourLabel tx" "matchesHHMM tx" "y = hourLabel ty" "matchesHHMM ty"
    by auto
  obtain a b where x: "x = [a, b]" "isDigit a" "isDigit b"
    using hourLabel_digits[OF t(2)] t(1) by auto
  obtain c d where y: "y = [c, d]" "isDigit c" "isDigit d"
    using hourLabel_digits[OF t(4)] t(3) by auto
  from eq have "10 * digitVal a + digitVal b = 10 * digitVal c + digitVal d"
    by (simp add: x y Number_two)
  moreover have "digitVal b < 10" "digitVal d < 10" using x y by (simp_all add: digitVal_less)
  ultimately have "digitVal a = digitVal c \<and> digitVal b = digitVal d" by arith
  then show "x = y" using x y by (auto dest: digitVal_inj)
qed

lemma time_in_section:
  assumes "t \<in> set (cleaned slots)"
  shows "(\<exists>g \<in> set (sectionsOf (buildSections slots) b). t \<in> set (slot_list g))
           \<longleftrightarrow> b = bucketOfHour (hourLabel t)"
  using assms by (auto simp: set_sectionsOf)

lemma bucketsHolding_buildSections:
  assumes "t \<in> set (cleaned slots)"
  shows "bucketsHolding (buildSections slots) t = [bucketOfHour (hourLabel t)]"
  unfolding bucketsHolding_def
  by (cases "bucketOfHour (hourLabel t)") (simp_all add: time_in_section[OF assms])

lemma section_members:
  assumes "g \<in> set (sectionsOf (buildSections slots) b)"
  shows "slot_list g = filter (\<lambda>t. hourLabel t = hour g) (cleaned slots)"
    and "hour g \<in> hourLabel ` set (cleaned slots)"
    and "bucketOfHour (hour g) = b"
  using assms by (auto simp: set_sectionsOf)

lemma distinct_hours_sectionsOf:
  "distinct (map hour (sectionsOf (buildSections slots) b))"
proof -
  let ?ks = "filter (\<lambda>k. bucketOfHour k = b) (ObjectKeys (groupByHour (cleaned slots)))"
  have "distinct ?ks" by (simp add: distinct_ObjectKeys groupByHour_keys(1))
  then have "distinct (map hour (map (hourGroup (groupByHour (cleaned slots))) ?ks))"
    by (simp only: hours_sectionsOf)
  then have "distinct (map (hourGroup (groupByHour (cleaned slots))) ?ks)
      \<and> inj_on hour (set (map (hourGroup (groupByHour (cleaned slots))) ?ks))"
    by (simp only: distinct_map)
  then have "distinct (map hour (sort_key (\<lambda>g. Number (hour g)) (map (hourGroup (groupByHour (cleaned slots))) ?ks)))"
    by (simp only: distinct_map distinct_sort set_sort)
  then show ?thesis
    by (simp only: sectionsOf_buildSections sortByHour_def)
qed

lemma sorted_hours_sectionsOf:
  "sorted (map (\<lambda>g. Number (hour g)) (sectionsOf (buildSections slots) b))"
  by (simp add: sectionsOf_buildSections sortByHour_def)

lemma strict_sorted_hours_sectionsOf:
  "sorted_wrt (<) (map (\<lambda>g. Number (hour g)) (sectionsOf (buildSections slots) b))"
proof -
  have sub: "hour ` set (sectionsOf (buildSections slots) b) \<subseteq> hourLabel ` {t. matchesHHMM t}"
    using section_members(2)[of _ slots b] by (auto simp: set_cleaned)
  have "inj_on Number (hour ` set (sectionsOf (buildSections slots) b))"
    by (rule inj_on_subset[OF Number_inj_labels sub])
  moreover have "inj_on hour (set (sectionsOf (buildSections slots) b))"
    using distinct_hours_sectionsOf[of slots b] by (simp add: distinct_map)
  ultimately have "inj_on (\<lambda>g. Number (hour g)) (set (sectionsOf (buildSections slots) b))"
    using comp_inj_on[of hour _ Number] by (simp add: comp_def)
  moreover have "distinct (sectionsOf (buildSections slots) b)"
    using distinct_hours_sectionsOf[of slots b] by (simp add: distinct_map)
  ultimately have "distinct (map (\<lambda>g. Number (hour g)) (sectionsOf (buildSections slots) b))"
    by (simp add: distinct_map)
  with sorted_hours_sectionsOf[of slots b] show ?thesis by (simp add: strict_sorted_iff)
qed


lemma sorted_slot_list:
  assumes "g \<in> set (sectionsOf (buildSections slots) b)"
  shows "sorted_wrt (<) (slot_list g)"
  using strict_sorted_cleaned[of slots]
  by (simp add: section_members(1)[OF assms] sorted_wrt_filter)

lemma allGroups_sections:
  "allGroups bb = sectionsOf bb Morning @ sectionsOf bb Afternoon @ sectionsOf bb Evening"
  by (simp add: allGroups_def sectionsOf_def)

lemma distinct_concat_groups:
  assumes "distinct ts" "distinct (map hour gs)"
    and "\<forall>g \<in> set gs. slot_list g = filter (\<lambda>t. hourLabel t = hour g) ts"
  shows "distinct (concat (map slot_list gs))"
  using assms(2,3)
proof (induction gs)
  case Nil
  then show ?case by simp
next
  case (Cons g gs)
  have "set (slot_list g) \<inter> set (slot_list g') = {}" if "g' \<in> set gs" for g'
  proof -
    have "hour g' \<in> hour ` set gs" using that by (rule imageI)
    then have "hour g' \<noteq> hour g" using Cons.prems(1) by auto
    then show ?thesis using Cons.prems(2) that by auto
  qed
  moreover have "distinct (slot_list g)" using Cons.prems(2) assms(1) by simp
  ultimately show ?case using Cons by auto
qed

lemma distinct_hours_allGroups: "distinct (map hour (allGroups (buildSections slots)))"
proof -
  have "hour g \<noteq> hour g'"
    if "g \<in> set (sectionsOf (buildSections slots) b)" "g' \<in> set (sectionsOf (buildSections slots) b')"
      "b \<noteq> b'" for g g' b b'
    using section_members(3)[OF that(1)] section_members(3)[OF that(2)] that(3) by auto
  then show ?thesis
    unfolding allGroups_sections
    by (auto simp: distinct_hours_sectionsOf)
qed

lemma set_allGroups:
  "set (allGroups bb) = (\<Union>b. set (sectionsOf bb b))"
proof -
  have "set (sectionsOf bb b) \<subseteq> set (allGroups bb)" for b
    by (cases b) (auto simp: allGroups_sections)
  then show ?thesis by (auto simp: allGroups_sections)
qed

lemma distinct_allTimes: "distinct (allTimes (buildSections slots))"
  unfolding allTimes_def
  by (rule distinct_concat_groups[OF distinct_cleaned distinct_hours_allGroups])
     (auto simp: set_allGroups section_members(1))

lemma set_allTimes: "set (allTimes (buildSections slots)) = set (cleaned slots)"
proof
  show "set (allTimes (buildSections slots)) \<subseteq> set (cleaned slots)"
    by (auto simp: allTimes_def set_allGroups section_members(1))
  show "set (cleaned slots) \<subseteq> set (allTimes (buildSections slots))"
  proof
    fix t assume "t \<in> set (cleaned slots)"
    from time_in_section[OF this, of "bucketOfHour (hourLabel t)"]
    show "t \<in> set (allTimes (buildSections slots))"
      by (auto simp: allTimes_def set_allGroups)
  qed
qed


section \<open>The bucket of a time\<close>

lemmas sections_eval =
  buildSections_def cleaned_def setOf_def matchesHHMM_def isDigit_def groupByHour_def
  pushByHour_def hourLabel_def ObjectKeys_def isArrayIndex_def Number_def digitVal_def
  pushBucket_def hourGroup_def bucketOfHour_def sortByHour_def sectionsOf_def Let_def

lemma bucketOfHour_ranges:
  assumes "matchesHHMM t"
  shows "bucketOfHour (hourLabel t) =
           (if 5 \<le> hourOfDay t \<and> hourOfDay t \<le> 11 then Morning
            else if 12 \<le> hourOfDay t \<and> hourOfDay t \<le> 17 then Afternoon else Evening)"
  by (simp add: bucketOfHour_def Number_hourLabel[OF assms] Let_def)

text \<open>
  Claim C1. A time that passes the \<open>HH:MM\<close> test lands in exactly one bucket, and its
  hour-of-day alone decides which: hours 05 to 11 in the morning, 12 to 17 in the
  afternoon, 18 to 23 and 00 to 04 in the evening. Any other valid time of any other
  slot list with the same hour-of-day lands in the same bucket.
\<close>

theorem bucket_by_hour_of_day:
  assumes "matchesHHMM t" and "t \<in> set slots"
  shows "\<exists>b. bucketsHolding (buildSections slots) t = [b]
           \<and> (5 \<le> hourOfDay t \<and> hourOfDay t \<le> 11 \<longrightarrow> b = Morning)
           \<and> (12 \<le> hourOfDay t \<and> hourOfDay t \<le> 17 \<longrightarrow> b = Afternoon)
           \<and> ((18 \<le> hourOfDay t \<and> hourOfDay t \<le> 23) \<or> hourOfDay t \<le> 4 \<longrightarrow> b = Evening)
           \<and> (\<forall>slots' t'. matchesHHMM t' \<and> t' \<in> set slots' \<and> hourOfDay t' = hourOfDay t
                  \<longrightarrow> bucketsHolding (buildSections slots') t' = [b])"
proof -
  have held: "bucketsHolding (buildSections s) u = [bucketOfHour (hourLabel u)]"
    if "matchesHHMM u" "u \<in> set s" for s u
    using that by (intro bucketsHolding_buildSections) (simp add: set_cleaned)
  have same: "bucketOfHour (hourLabel u) = bucketOfHour (hourLabel t)"
    if "matchesHHMM u" "hourOfDay u = hourOfDay t" for u
    using that by (simp add: bucketOfHour_ranges assms(1))
  show ?thesis
  proof (intro exI[of _ "bucketOfHour (hourLabel t)"] conjI allI impI)
    show "bucketsHolding (buildSections slots) t = [bucketOfHour (hourLabel t)]"
      by (rule held[OF assms])
  qed (auto simp: bucketOfHour_ranges[OF assms(1)] held same)
qed

text \<open>
  Of the slots 13:30, 23:45, 09:00 and 02:15 the first goes to the afternoon, the third to
  the morning, the other two to the evening.
\<close>

theorem bucket_by_hour_of_day_witness:
  "matchesHHMM ''09:00'' \<and> ''09:00'' \<in> set [''13:30'', ''23:45'', ''09:00'', ''02:15'']
     \<and> bucketsHolding (buildSections [''13:30'', ''23:45'', ''09:00'', ''02:15'']) ''09:00'' = [Morning]
     \<and> bucketsHolding (buildSections [''13:30'', ''23:45'', ''09:00'', ''02:15'']) ''13:30'' = [Afternoon]
     \<and> bucketsHolding (buildSections [''13:30'', ''23:45'', ''09:00'', ''02:15'']) ''23:45'' = [Evening]
     \<and> bucketsHolding (buildSections [''13:30'', ''23:45'', ''09:00'', ''02:15'']) ''02:15'' = [Evening]"
  using bucket_by_hour_of_day[of "''09:00''" "[''13:30'', ''23:45'', ''09:00'', ''02:15'']"]
        bucket_by_hour_of_day[of "''13:30''" "[''13:30'', ''23:45'', ''09:00'', ''02:15'']"]
        bucket_by_hour_of_day[of "''23:45''" "[''13:30'', ''23:45'', ''09:00'', ''02:15'']"]
        bucket_by_hour_of_day[of "''02:15''" "[''13:30'', ''23:45'', ''09:00'', ''02:15'']"]
  by (auto simp: matchesHHMM_def isDigit_def hourOfDay_def digitVal_def)

section \<open>What section building keeps\<close>

text \<open>
  Claim C2. Section building works on the fetched list with its duplicates removed, the
  entries that fail the \<open>HH:MM\<close> test discarded and the rest sorted lexicographically:
  the cleaned list has no duplicate, holds exactly the entries of the fetched list that
  pass the test, and is sorted; the groups list every cleaned entry, each once. For the
  slots 09:00, 09:00, 09:30 there is one group, of hour 09, with the two entries 09:00
  and 09:30.
\<close>

theorem cleaned_dedup_filter_sort:
  "distinct (cleaned slots)
     \<and> set (cleaned slots) = {t \<in> set slots. matchesHHMM t}
     \<and> sorted (cleaned slots)
     \<and> distinct (allTimes (buildSections slots))
     \<and> set (allTimes (buildSections slots)) = set (cleaned slots)
     \<and> allGroups (buildSections [''09:00'', ''09:00'', ''09:30''])
         = [\<lparr>hour = ''09'', slot_list = [''09:00'', ''09:30'']\<rparr>]"
proof -
  have "allGroups (buildSections [''09:00'', ''09:00'', ''09:30''])
         = [\<lparr>hour = ''09'', slot_list = [''09:00'', ''09:30'']\<rparr>]"
    by (simp add: allGroups_def sections_eval)
  then show ?thesis
    by (simp only: distinct_cleaned set_cleaned sorted_cleaned distinct_allTimes set_allTimes simp_thms)
qed

section \<open>Order inside the sections\<close>

text \<open>
  Claim C3. In what section building returns, the times of a group all have the hour of
  the group and ascend strictly, and the groups of each bucket ascend strictly by hour.
  For the slots 10:30, 09:00, 09:45 the morning holds the group of hour 09, listing
  09:00 before 09:45, and then the group of hour 10.
\<close>

theorem groups_same_hour_sorted:
  "(\<forall>g \<in> set (sectionsOf (buildSections slots) b).
        (\<forall>t \<in> set (slot_list g). hourLabel t = hour g \<and> hourOfDay t = Number (hour g))
        \<and> sorted_wrt (<) (slot_list g))
     \<and> sorted_wrt (<) (map (\<lambda>g. Number (hour g)) (sectionsOf (buildSections slots) b))
     \<and> sectionsOf (buildSections [''10:30'', ''09:00'', ''09:45'']) Morning
         = [\<lparr>hour = ''09'', slot_list = [''09:00'', ''09:45'']\<rparr>,
            \<lparr>hour = ''10'', slot_list = [''10:30'']\<rparr>]"
proof (intro conjI ballI)
  fix g t assume g: "g \<in> set (sectionsOf (buildSections slots) b)" and t: "t \<in> set (slot_list g)"
  from t show "hourLabel t = hour g" by (simp add: section_members(1)[OF g])
  moreover from t have "matchesHHMM t" by (simp add: section_members(1)[OF g] set_cleaned)
  ultimately show "hourOfDay t = Number (hour g)" using Number_hourLabel by metis
next
  fix g assume "g \<in> set (sectionsOf (buildSections slots) b)"
  then show "sorted_wrt (<) (slot_list g)" by (rule sorted_slot_list)
next
  show "sorted_wrt (<) (map (\<lambda>g. Number (hour g)) (sectionsOf (buildSections slots) b))"
    by (rule strict_sorted_hours_sectionsOf)
next
  show "sectionsOf (buildSections [''10:30'', ''09:00'', ''09:45'']) Morning
         = [\<lparr>hour = ''09'', slot_list = [''09:00'', ''09:45'']\<rparr>,
            \<lparr>hour = ''10'', slot_list = [''10:30'']\<rparr>]"
    by (simp add: sections_eval)
qed

text \<open>At the slots 10:30, 09:00, 09:45 the morning has groups and each has times.\<close>

theorem groups_same_hour_sorted_witness:
  "sectionsOf (buildSections [''10:30'', ''09:00'', ''09:45'']) Morning \<noteq> []
     \<and> list_all (\<lambda>g. slot_list g \<noteq> []
                      \<and> list_all (\<lambda>t. hourLabel t = hour g \<and> hourOfDay t = Number (hour g)) (slot_list g)
                      \<and> sorted_wrt (<) (slot_list g))
          (sectionsOf (buildSections [''10:30'', ''09:00'', ''09:45'']) Morning)
     \<and> map (\<lambda>g. Number (hour g)) (sectionsOf (buildSections [''10:30'', ''09:00'', ''09:45'']) Morning)
         = [9, 10]"
proof -
  note inst = groups_same_hour_sorted[of "[''10:30'', ''09:00'', ''09:45'']" Morning]
  have eq: "sectionsOf (buildSections [''10:30'', ''09:00'', ''09:45'']) Morning
         = [\<lparr>hour = ''09'', slot_list = [''09:00'', ''09:45'']\<rparr>,
            \<lparr>hour = ''10'', slot_list = [''10:30'']\<rparr>]"
    using inst by simp
  have "map (\<lambda>g. Number (hour g)) (sectionsOf (buildSections [''10:30'', ''09:00'', ''09:45'']) Morning) = [9, 10]"
    unfolding eq by (simp add: Number_def digitVal_def)
  moreover have "\<forall>g \<in> set (sectionsOf (buildSections [''10:30'', ''09:00'', ''09:45'']) Morning). slot_list g \<noteq> []"
    unfolding eq by simp
  moreover have "sectionsOf (buildSections [''10:30'', ''09:00'', ''09:45'']) Morning \<noteq> []"
    unfolding eq by simp
  ultimately show ?thesis using inst unfolding list_all_iff by blast
qed

section \<open>The fetch of a day\<close>

lemma reduce_lengths:
  "foldl (\<lambda>acc s. acc + length (slot_list s)) a gs = a + length (concat (map slot_list gs))"
  by (induction gs arbitrary: a) auto

lemma countOf_length: "countOf bb b = length (concat (map slot_list (sectionsOf bb b)))"
  by (simp add: countOf_def reduce_lengths)

lemma length_allTimes:
  "length (allTimes bb) = countOf bb Morning + countOf bb Afternoon + countOf bb Evening"
  by (simp add: allTimes_def allGroups_sections countOf_length)

lemma buildSections_nothing_valid:
  assumes "\<forall>t \<in> set slots. \<not> matchesHHMM t"
  shows "buildSections slots = \<lparr>morning = [], afternoon = [], evening = []\<rparr>"
proof -
  have "set (cleaned slots) = {}" using assms by (auto simp: set_cleaned)
  then have "cleaned slots = []" by simp
  then show ?thesis
    by (simp add: buildSections_def groupByHour_def ObjectKeys_def sortByHour_def)
qed

lemma guessBucket_cases:
  "guessBucket h = (if h < 12 then Morning else if h < 18 then Afternoon else Evening)"
  by (simp add: guessBucket_def)

lemma fetchSlotsFor_rendered:
  assumes "ok resp" and "json resp = Inr (Some slots)" and "slots \<noteq> []"
  shows "fetchSlotsFor pathname nowHours dateStr (Resolved resp) p =
           (renderSections (initialBucketOf (countOf (buildSections slots)) (guessBucket nowHours))
              (p\<lparr>slotsErr_hidden := True, errDetail := [], slotsEmpty_hidden := True,
                 slotsSkeleton_hidden := False, toStep4_disabled := True,
                 inicio := [], slotsWrap_ready := False,
                 slotsState := (slotsState p)\<lparr>dayStr := dateStr, sectionsByBucket := buildSections slots\<rparr>,
                 slotsGrid := [renderTabs (initialBucketOf (countOf (buildSections slots)) (guessBucket nowHours))
                                 (countOf (buildSections slots))]\<rparr>))
           \<lparr>slotsSkeleton_hidden := True\<rparr>"
  using assms by (simp add: fetchSlotsFor_def fetchSlotsFor_try_def Let_def)

lemma fetchSlotsFor_caught:
  assumes "fetchSlotsFor_try pathname nowHours outcome
             (p\<lparr>slotsErr_hidden := True, errDetail := [], slotsEmpty_hidden := True,
                 slotsGrid := [], slotsSkeleton_hidden := False, toStep4_disabled := True,
                 inicio := [], slotsWrap_ready := False,
                 slotsState := (slotsState p)\<lparr>dayStr := dateStr\<rparr>\<rparr>) = Inl e"
  shows "fetchSlotsFor pathname nowHours dateStr outcome p =
           p\<lparr>slotsErr_hidden := False, errDetail := errText e, slotsEmpty_hidden := True,
             slotsGrid := [], slotsSkeleton_hidden := True, toStep4_disabled := True,
             inicio := [], slotsWrap_ready := False,
             slotsState := (slotsState p)\<lparr>dayStr := dateStr\<rparr>,
             console_error := console_error p @ [e]\<rparr>"
  using assms by (simp add: fetchSlotsFor_def Let_def)

lemma activeBucket_renderSections: "activeBucket (slotsState (renderSections b p)) = b"
  by (simp add: renderSections_def Let_def)

lemma slotsGrid_renderSections:
  "slotsGrid p = [c] \<Longrightarrow> \<exists>rest. slotsGrid (renderSections b p) = c # rest"
  by (simp add: renderSections_def Let_def)

lemma tabs_active:
  "\<exists>ts. renderTabs b counts = Tabs ts \<and> map tab_active ts = map (\<lambda>k. k = b) [Morning, Afternoon, Evening]
       \<and> map tab_key ts = [Morning, Afternoon, Evening]"
  by (simp add: renderTabs_def)

text \<open>
  Claim C4. After a day fetch that succeeds and yields at least one bucketed time, the
  bucket selected first, which is also the one whose tab is marked active, is the bucket
  guessed from the wall-clock hour (before 12 the morning, before 18 the afternoon,
  otherwise the evening) when that bucket has an entry, and otherwise the first bucket
  with an entry in the order morning, afternoon, evening.
\<close>

theorem initial_bucket_selection:
  assumes "ok resp" and "json resp = Inr (Some slots)" and "allTimes (buildSections slots) \<noteq> []"
  shows "let counts = countOf (buildSections slots);
             guess = (if nowHours < 12 then Morning else if nowHours < 18 then Afternoon else Evening);
             p' = fetchSlotsFor pathname nowHours dateStr (Resolved resp) p;
             chosen = activeBucket (slotsState p')
         in (counts guess \<noteq> 0 \<longrightarrow> chosen = guess)
          \<and> (counts guess = 0 \<longrightarrow> firstNonEmpty counts = Some chosen)
          \<and> (\<exists>ts rest. slotsGrid p' = Tabs ts # rest
                \<and> map tab_key ts = [Morning, Afternoon, Evening]
                \<and> map tab_active ts = map (\<lambda>k. k = chosen) [Morning, Afternoon, Evening])"
proof -
  let ?counts = "countOf (buildSections slots)"
  let ?ib = "initialBucketOf ?counts (guessBucket nowHours)"
  have "slots \<noteq> []"
  proof
    assume "slots = []"
    then have "allTimes (buildSections slots) = []"
      by (simp add: buildSections_nothing_valid allTimes_def allGroups_def)
    with assms(3) show False by simp
  qed
  note eq = fetchSlotsFor_rendered[OF assms(1,2) this, of pathname nowHours dateStr p]
  have chosen: "activeBucket (slotsState (fetchSlotsFor pathname nowHours dateStr (Resolved resp) p)) = ?ib"
    by (simp add: eq activeBucket_renderSections)
  have some: "?counts Morning \<noteq> 0 \<or> ?counts Afternoon \<noteq> 0 \<or> ?counts Evening \<noteq> 0"
  proof -
    have "0 < length (allTimes (buildSections slots))" using assms(3) by simp
    then show ?thesis unfolding length_allTimes by linarith
  qed
  have grid: "\<exists>ts rest. slotsGrid (fetchSlotsFor pathname nowHours dateStr (Resolved resp) p) = Tabs ts # rest
                \<and> map tab_key ts = [Morning, Afternoon, Evening]
                \<and> map tab_active ts = map (\<lambda>k. k = ?ib) [Morning, Afternoon, Evening]"
  proof -
    obtain ts where ts: "renderTabs ?ib ?counts = Tabs ts"
      "map tab_active ts = map (\<lambda>k. k = ?ib) [Morning, Afternoon, Evening]"
      "map tab_key ts = [Morning, Afternoon, Evening]"
      using tabs_active[of ?ib ?counts] by auto
    obtain rest where g: "slotsGrid (fetchSlotsFor pathname nowHours dateStr (Resolved resp) p) = Tabs ts # rest"
      unfolding eq using slotsGrid_renderSections[where c = "Tabs ts"] by (fastforce simp: ts(1))
    show ?thesis
      by (rule exI[of _ ts], rule exI[of _ rest]) (use ts g in simp)
  qed
  have first: "?counts (guessBucket nowHours) = 0 \<Longrightarrow> firstNonEmpty ?counts = Some ?ib"
    using some by (auto simp: firstNonEmpty_def initialBucketOf_def)
  have guess: "?counts (guessBucket nowHours) \<noteq> 0 \<Longrightarrow> ?ib = guessBucket nowHours"
    by (simp add: initialBucketOf_def)
  show ?thesis
    unfolding Let_def chosen guessBucket_cases[symmetric]
    using first guess grid by blast
qed


text \<open>
  With the slots 09:00 and 19:30 the afternoon is empty: at 14 hours the morning is
  selected, at 20 hours the evening.
\<close>

theorem initial_bucket_selection_witness:
  "ok \<lparr>status = 200, body = Inr [], json = Inr (Some [''09:00'', ''19:30''])\<rparr>
     \<and> allTimes (buildSections [''09:00'', ''19:30'']) \<noteq> []
     \<and> countOf (buildSections [''09:00'', ''19:30'']) Afternoon = 0
     \<and> activeBucket (slotsState (fetchSlotsFor (SLOTS_URL ''barbearia'' None) 14 ''2025-03-10''
           (Resolved \<lparr>status = 200, body = Inr [], json = Inr (Some [''09:00'', ''19:30''])\<rparr>) page_initial))
         = Morning
     \<and> activeBucket (slotsState (fetchSlotsFor (SLOTS_URL ''barbearia'' None) 20 ''2025-03-10''
           (Resolved \<lparr>status = 200, body = Inr [], json = Inr (Some [''09:00'', ''19:30''])\<rparr>) page_initial))
         = Evening"
proof -
  let ?r = "\<lparr>status = 200, body = Inr [], json = Inr (Some [''09:00'', ''19:30''])\<rparr> :: (string list option) response"
  have b: "buildSections [''09:00'', ''19:30'']
      = \<lparr>morning = [\<lparr>hour = ''09'', slot_list = [''09:00'']\<rparr>], afternoon = [],
         evening = [\<lparr>hour = ''19'', slot_list = [''19:30'']\<rparr>]\<rparr>"
    by (simp add: sections_eval)
  have h: "ok ?r" "json ?r = Inr (Some [''09:00'', ''19:30''])" "allTimes (buildSections [''09:00'', ''19:30'']) \<noteq> []"
    by (simp_all add: ok_def b allTimes_def allGroups_def)
  have c: "countOf (buildSections [''09:00'', ''19:30'']) Afternoon = 0"
    "countOf (buildSections [''09:00'', ''19:30'']) Morning = 1"
    "countOf (buildSections [''09:00'', ''19:30'']) Evening = 1"
    by (simp_all add: b countOf_def sectionsOf_def)
  have f: "firstNonEmpty (countOf (buildSections [''09:00'', ''19:30''])) = Some Morning"
    by (simp add: firstNonEmpty_def c)
  show ?thesis
    using initial_bucket_selection[OF h, where nowHours = 14 and pathname = "SLOTS_URL ''barbearia'' None"
            and dateStr = "''2025-03-10''" and p = page_initial]
          initial_bucket_selection[OF h, where nowHours = 20 and pathname = "SLOTS_URL ''barbearia'' None"
            and dateStr = "''2025-03-10''" and p = page_initial]
          h(1,3) c f
    by (simp add: Let_def)
qed

text \<open>
  Claim C5. A day fetch answered with a status outside 200 to 299 shows the error panel.
  Its detail is the status and the path of the request followed by the first 140
  characters of the body of the reply, and no more of the body; when the body cannot be
  read, the detail is the text of that error and shows nothing of the body. The empty
  panel stays hidden, the grid stays empty, and the error is logged.
\<close>

theorem http_error_detail:
  assumes "status resp < 200 \<or> 299 < status resp"
  shows "let p' = fetchSlotsFor pathname nowHours dateStr (Resolved resp) p in
           \<not> slotsErr_hidden p'
         \<and> errDetail p' =
             (case body resp of
                Inr txt \<Rightarrow> ''HTTP '' @ showNat (status resp) @ '' em '' @ pathname
                             @ '' '' @ en_dash @ '' '' @ take 140 txt
              | Inl e \<Rightarrow> errText e)
         \<and> slotsEmpty_hidden p' \<and> slotsGrid p' = [] \<and> slotsSkeleton_hidden p'
         \<and> console_error p' =
             console_error p @
               [case body resp of
                  Inr txt \<Rightarrow> JsError ''Error'' (''HTTP '' @ showNat (status resp) @ '' em '' @ pathname
                                                   @ '' '' @ en_dash @ '' '' @ take 140 txt)
                | Inl e \<Rightarrow> e]"
proof -
  have not_ok: "\<not> ok resp" using assms by (auto simp: ok_def)
  show ?thesis
  proof (cases "body resp")
    case (Inl e)
    with not_ok have "fetchSlotsFor_try pathname nowHours (Resolved resp) q = Inl e" for q
      by (simp add: fetchSlotsFor_try_def)
    from fetchSlotsFor_caught[OF this] show ?thesis
      by (simp add: Inl Let_def)
  next
    case (Inr read)
    with not_ok have "fetchSlotsFor_try pathname nowHours (Resolved resp) q =
        Inl (JsError ''Error'' (''HTTP '' @ showNat (status resp) @ '' em '' @ pathname
                                  @ '' '' @ en_dash @ '' '' @ take 140 read))" for q
      by (simp add: fetchSlotsFor_try_def)
    from fetchSlotsFor_caught[OF this] show ?thesis
      by (simp add: Inr errText_def Let_def)
  qed
qed

text \<open>
  A reply 500 with a body of 200 characters: 140 of them are displayed. A reply 500
  whose body cannot be read: the panel shows the message of that error.
\<close>

theorem http_error_detail_witness:
  "errDetail (fetchSlotsFor (SLOTS_URL ''barbearia'' (Some ''ze'')) 9 ''2025-03-10''
       (Resolved \<lparr>status = 500, body = Inr (replicate 200 CHR ''x''),
                  json = Inl (JsError ''SyntaxError'' ''Unexpected token'')\<rparr>)
       page_initial)
     = ''HTTP 500 em /pub/barbearia/ze/slots/ '' @ en_dash @ '' '' @ replicate 140 CHR ''x''
   \<and> \<not> slotsErr_hidden (fetchSlotsFor (SLOTS_URL ''barbearia'' (Some ''ze'')) 9 ''2025-03-10''
       (Resolved \<lparr>status = 500, body = Inr (replicate 200 CHR ''x''),
                  json = Inl (JsError ''SyntaxError'' ''Unexpected token'')\<rparr>)
       page_initial)
   \<and> errDetail (fetchSlotsFor (SLOTS_URL ''barbearia'' (Some ''ze'')) 9 ''2025-03-10''
       (Resolved \<lparr>status = 500, body = Inl (JsError ''TypeError'' ''network error''),
                  json = Inl (JsError ''TypeError'' ''network error'')\<rparr>)
       page_initial)
     = ''network error''"
proof -
  have s: "showNat 500 = ''500''"
    by (simp add: showNat.simps[of 500] showNat.simps[of 50] showNat.simps[of 5])
  show ?thesis
    using http_error_detail[where resp = "\<lparr>status = 500, body = Inr (replicate 200 CHR ''x''),
                  json = Inl (JsError ''SyntaxError'' ''Unexpected token'')\<rparr>"
            and pathname = "SLOTS_URL ''barbearia'' (Some ''ze'')" and nowHours = 9
            and dateStr = "''2025-03-10''" and p = page_initial]
          http_error_detail[where resp = "\<lparr>status = 500, body = Inl (JsError ''TypeError'' ''network error''),
                  json = Inl (JsError ''TypeError'' ''network error'')\<rparr>"
            and pathname = "SLOTS_URL ''barbearia'' (Some ''ze'')" and nowHours = 9
            and dateStr = "''2025-03-10''" and p = page_initial]
    by (simp add: Let_def s SLOTS_URL_def errText_def)
qed




section \<open>The month precheck\<close>

text \<open>
  Claim C9. When the month precheck ends in a network error or in an error of parsing
  the reply, no day button changes, disabled or not, and the only effect is the warning
  logged for the error (there is none when no service is chosen, since then no request
  is made).
\<close>

theorem precheck_fails_open:
  assumes "outcome = Rejected e \<or> (\<exists>resp. outcome = Resolved resp \<and> json resp = Inl e)"
  shows "day_btns (precheckMonthAvailability servicoValue outcome cal) = day_btns cal
       \<and> console_warn (precheckMonthAvailability servicoValue outcome cal)
           = (if servicoValue = [] then console_warn cal else console_warn cal @ [e])"
  using assms by (auto simp: precheckMonthAvailability_def)

text \<open>
  A rejected fetch and a reply that is not JSON, on a calendar of two days.
\<close>

theorem precheck_fails_open_witness:
  "day_btns (precheckMonthAvailability ''7'' (Rejected (JsError ''TypeError'' ''Failed to fetch''))
       calendar_two_days)
     = [\<lparr>day = 1, day_disabled = True\<rparr>, \<lparr>day = 2, day_disabled = False\<rparr>]
   \<and> console_warn (precheckMonthAvailability ''7''
         (Resolved \<lparr>status = 502, body = Inr ''<html>Bad Gateway</html>'',
                    json = Inl (JsError ''SyntaxError'' ''Unexpected token <'')\<rparr>)
         calendar_two_days)
     = [JsError ''SyntaxError'' ''Unexpected token <'']"
  using precheck_fails_open[of "Rejected (JsError ''TypeError'' ''Failed to fetch'')"
          "JsError ''TypeError'' ''Failed to fetch''" "''7''" calendar_two_days]
        precheck_fails_open[of "Resolved \<lparr>status = 502, body = Inr ''<html>Bad Gateway</html>'',
                    json = Inl (JsError ''SyntaxError'' ''Unexpected token <'')\<rparr>"
          "JsError ''SyntaxError'' ''Unexpected token <''" "''7''" calendar_two_days]
  by (simp add: calendar_two_days_def)

section \<open>The guard of the submission\<close>

text \<open>
  Claim C6. A click on the submit button with a contact and a service, that is a
  telephone field whose trimmed value is not empty and a service field whose value is
  not empty, sets the hidden field to 1 and leaves the submission of the form alone.
  Any other click cancels the submission, shows step 1 and raises the alert; nothing
  else changes.
\<close>

theorem submit_guarded:
  "(if (\<exists>v. telefone p = Some v \<and> trim v \<noteq> []) \<and> (\<exists>s. servico p = Some s \<and> s \<noteq> [])
    then submitClick p = (p\<lparr>submit_value := ''1''\<rparr>, False)
    else submitClick p =
           (p\<lparr>visible_step := 1, active_label := 1, progress_width := ''25%'',
              form_alerts := form_alerts p @ [''Preencha WhatsApp e Servi'' @ [CHR 0xE7] @ ''o.'']\<rparr>,
            True))"
proof -
  have step1: "showStep 1 p = p\<lparr>visible_step := 1, active_label := 1, progress_width := ''25%''\<rparr>"
    by (simp add: showStep_def setProgress_def)
  have telOk: "(case telefone p of Some v \<Rightarrow> trim v \<noteq> [] | None \<Rightarrow> False)
                 \<longleftrightarrow> (\<exists>v. telefone p = Some v \<and> trim v \<noteq> [])"
    by (cases "telefone p") simp_all
  have srvOk: "(case servico p of Some v \<Rightarrow> v \<noteq> [] | None \<Rightarrow> False)
                 \<longleftrightarrow> (\<exists>s. servico p = Some s \<and> s \<noteq> [])"
    by (cases "servico p") simp_all
  show ?thesis
    unfolding submitClick_def Let_def telOk srvOk step1 by simp
qed

text \<open>
  A blank contact, a missing service, and a complete form.
\<close>

theorem submit_guarded_witness:
  "submitClick (form_page_step4 ''  '' ''3'')
     = ((form_page_step4 ''  '' ''3'')
          \<lparr>visible_step := 1, active_label := 1, progress_width := ''25%'',
            form_alerts := [''Preencha WhatsApp e Servi'' @ [CHR 0xE7] @ ''o.'']\<rparr>, True)
   \<and> submitClick (form_page_step4 ''(31) 9 9999-0000'' [])
     = ((form_page_step4 ''(31) 9 9999-0000'' [])
          \<lparr>visible_step := 1, active_label := 1, progress_width := ''25%'',
            form_alerts := [''Preencha WhatsApp e Servi'' @ [CHR 0xE7] @ ''o.'']\<rparr>, True)
   \<and> submitClick (form_page_step4 ''(31) 9 9999-0000'' ''3'')
     = ((form_page_step4 ''(31) 9 9999-0000'' ''3'')\<lparr>submit_value := ''1''\<rparr>, False)"
  using submit_guarded[of "form_page_step4 ''  '' ''3''"]
        submit_guarded[of "form_page_step4 ''(31) 9 9999-0000'' []"]
        submit_guarded[of "form_page_step4 ''(31) 9 9999-0000'' ''3''"]
  by (simp add: form_page_step4_def trim_def isWhiteSpace_def)

section \<open>The staff actions\<close>

lemma postForm_sent:
  assumes "attr b name \<noteq> []"
  shows "postForm (map_of (dataset b) name) d outcome reqs =
           (case outcome of
              Rejected e \<Rightarrow> Inl e
            | Resolved resp \<Rightarrow>
                if \<not> ok resp
                then (case body resp of
                        Inl e \<Rightarrow> Inl e
                      | Inr txt \<Rightarrow> Inl (JsError ''Error'' (''HTTP '' @ showNat (status resp) @ '' - '' @ txt)))
                else Inr (),
            reqs @ [\<lparr>req_url = attr b name, req_body = d\<rparr>])"
  using assms by (auto simp: postForm_def attr_def split: option.splits fetch_outcome.splits sum.splits)

lemma postForm_no_url:
  assumes "attr b name = []"
  shows "postForm (map_of (dataset b) name) d outcome reqs = (Inl (JsError ''Error'' ''URL ausente''), reqs)"
  using assms by (auto simp: postForm_def attr_def split: option.splits)

lemma settle_failed:
  "settle errPrefix label (Inl e, reqs) p =
     p\<lparr>btn := (btn p)\<lparr>disabled := False, textContent := label\<rparr>,
       alerts := alerts p @ [errPrefix @ message e], requests := reqs\<rparr>"
  by (simp add: settle_def)

lemma settle_succeeded:
  "settle errPrefix label (Inr (), reqs) p =
     p\<lparr>btn := (btn p)\<lparr>disabled := False, textContent := label\<rparr>,
       reloads := reloads p + 1, requests := reqs\<rparr>"
  by (simp add: settle_def)

lemma postForm_failure:
  assumes "attr b name \<noteq> []"
  shows "postForm (map_of (dataset b) name) d outcome reqs =
           (case failure outcome of Some e \<Rightarrow> Inl e | None \<Rightarrow> Inr (),
            reqs @ [\<lparr>req_url = attr b name, req_body = d\<rparr>])"
  by (auto simp: postForm_sent[OF assms] failure_def ok_def split: fetch_outcome.splits sum.splits)

text \<open>
  Claim C7, amended. The finalize and no-show actions ask for a confirmation first: when
  the operator cancels it, no request is sent and no reload is asked, and when the
  operator accepts, the POST goes to the URL of the button. The deny action asks for an
  optional reason first, and its POST carries the reason the operator entered.
\<close>

theorem confirmation_before_post:
  "requests (submitFinalize False outcome p) = requests p
   \<and> reloads (submitFinalize False outcome p) = reloads p
   \<and> requests (submitNoShow False outcome p) = requests p
   \<and> reloads (submitNoShow False outcome p) = reloads p
   \<and> (attr (btn p) ''finalizeUrl'' \<noteq> [] \<longrightarrow>
        requests (submitFinalize True outcome p)
          = requests p @ [\<lparr>req_url = attr (btn p) ''finalizeUrl'', req_body = []\<rparr>])
   \<and> (attr (btn p) ''noshowUrl'' \<noteq> [] \<longrightarrow>
        requests (submitNoShow True outcome p)
          = requests p @ [\<lparr>req_url = attr (btn p) ''noshowUrl'', req_body = []\<rparr>])
   \<and> (attr (btn p) ''denyUrl'' \<noteq> [] \<longrightarrow>
        requests (openDeny (Some motivo) outcome p)
          = requests p @ [\<lparr>req_url = attr (btn p) ''denyUrl'', req_body = [(''motivo'', motivo)]\<rparr>])"
proof -
  have r: "requests (settle errPrefix label res q) = snd res" for errPrefix label res q
    by (simp add: settle_def Let_def split: sum.splits)
  have cancelled: "requests (submitFinalize False outcome p) = requests p"
    "reloads (submitFinalize False outcome p) = reloads p"
    "requests (submitNoShow False outcome p) = requests p"
    "reloads (submitNoShow False outcome p) = reloads p"
    by (simp_all add: submitFinalize_def submitNoShow_def)
  have accepted: "requests (submitFinalize True outcome p)
          = requests p @ [\<lparr>req_url = attr (btn p) ''finalizeUrl'', req_body = []\<rparr>]"
    if "attr (btn p) ''finalizeUrl'' \<noteq> []"
    using that by (simp add: submitFinalize_def Let_def r postForm_failure)
  have accepted': "requests (submitNoShow True outcome p)
          = requests p @ [\<lparr>req_url = attr (btn p) ''noshowUrl'', req_body = []\<rparr>]"
    if "attr (btn p) ''noshowUrl'' \<noteq> []"
    using that by (simp add: submitNoShow_def Let_def r postForm_failure)
  have denied: "requests (openDeny (Some motivo) outcome p)
          = requests p @ [\<lparr>req_url = attr (btn p) ''denyUrl'', req_body = [(''motivo'', motivo)]\<rparr>]"
    if "attr (btn p) ''denyUrl'' \<noteq> []"
    using that by (simp add: openDeny_def Let_def r postForm_failure)
  show ?thesis
    using cancelled accepted accepted' denied by blast
qed

text \<open>
  A button with the three URLs: a finalize and a no-show that are accepted send one
  request each and cancelled ones none; a deny sends the reason entered.
\<close>

theorem confirmation_before_post_witness:
  "requests (submitFinalize True (Rejected (JsError ''TypeError'' ''Failed to fetch''))
       (staff_page_of (staff_button label_finalize)))
     = [\<lparr>req_url = ''/a/5/finalizar/'', req_body = []\<rparr>]
   \<and> requests (submitFinalize False (Rejected (JsError ''TypeError'' ''Failed to fetch''))
       (staff_page_of (staff_button label_finalize)))
     = []
   \<and> requests (submitNoShow True (Rejected (JsError ''TypeError'' ''Failed to fetch''))
       (staff_page_of (staff_button label_finalize)))
     = [\<lparr>req_url = ''/a/5/no-show/'', req_body = []\<rparr>]
   \<and> requests (submitNoShow False (Rejected (JsError ''TypeError'' ''Failed to fetch''))
       (staff_page_of (staff_button label_finalize)))
     = []
   \<and> requests (openDeny (Some ''sem vaga'') (Rejected (JsError ''TypeError'' ''Failed to fetch''))
       (staff_page_of (staff_button label_finalize)))
     = [\<lparr>req_url = ''/s/5/negar/'', req_body = [(''motivo'', ''sem vaga'')]\<rparr>]"
  using confirmation_before_post[of "Rejected (JsError ''TypeError'' ''Failed to fetch'')"
      "staff_page_of (staff_button label_finalize)" "''sem vaga''"]
  by (simp add: attr_def staff_page_of_def staff_button_def)

text \<open>
  Claim C7 as stated fails for the deny action: the operator cancels the prompt and the
  POST is sent all the same, with an empty reason.
\<close>

theorem deny_cancel_counterexample:
  "requests (openDeny None (Resolved \<lparr>status = 200, body = Inr ''{}'', json = Inr ()\<rparr>)
      \<lparr>btn = \<lparr>disabled = False, textContent = label_deny, dataset = [(''denyUrl'', ''/solicitacoes/5/negar/'')]\<rparr>,
       alerts = [], reloads = 0, requests = []\<rparr>)
     = [\<lparr>req_url = ''/solicitacoes/5/negar/'', req_body = [(''motivo'', [])]\<rparr>]"
  by (simp add: openDeny_def postForm_def settle_def ok_def Let_def)

text \<open>
  Claim C8, amended. For each of the four actions on a button that has its URL, once the
  POST has settled the button is enabled and carries the fixed label of the action. When
  the POST failed (network error, or a status outside 200 to 299) the alert shows the
  message of the error after the prefix of the action and no reload is asked; when it
  succeeded one reload is asked and no alert is raised. The fixed label is the label the
  button had before exactly when the page had rendered it with that label: the actions
  do not record the label they replace.
\<close>

theorem failed_post_resets_button:
  "\<forall>(act, urlName, errPrefix, label) \<in>
       set [(openConfirm, ''confirmUrl'', ''Erro ao confirmar: '', label_confirm),
            (openDeny answer, ''denyUrl'', ''Erro ao negar: '', label_deny),
            (submitFinalize True, ''finalizeUrl'', ''Erro ao finalizar: '', label_finalize),
            (submitNoShow True, ''noshowUrl'', ''Erro ao marcar no-show: '', label_noshow)].
     attr (btn p) urlName \<noteq> [] \<longrightarrow>
       btn (act outcome p) = (btn p)\<lparr>disabled := False, textContent := label\<rparr>
       \<and> (case failure outcome of
            Some e \<Rightarrow> alerts (act outcome p) = alerts p @ [errPrefix @ message e]
                       \<and> reloads (act outcome p) = reloads p
          | None \<Rightarrow> alerts (act outcome p) = alerts p
                    \<and> reloads (act outcome p) = reloads p + 1)"
proof (cases "failure outcome")
  case None
  then show ?thesis
    by (simp add: openConfirm_def openDeny_def submitFinalize_def submitNoShow_def Let_def
          postForm_failure settle_succeeded)
next
  case (Some e)
  then show ?thesis
    by (simp add: openConfirm_def openDeny_def submitFinalize_def submitNoShow_def Let_def
          postForm_failure settle_failed)
qed

text \<open>
  A button with the four URLs, rendered with the label of the confirm action: after a
  reply 500 to its confirm action it is as it was and the alert quotes the reply; after
  a reply 204 a reload is asked. The other three actions leave their own labels and
  alerts after a reply 500.
\<close>

theorem failed_post_resets_button_witness:
  "btn (openConfirm (Resolved \<lparr>status = 500, body = Inr ''boom'', json = Inr ()\<rparr>)
          (staff_page_of (staff_button label_confirm)))
     = staff_button label_confirm
   \<and> alerts (openConfirm (Resolved \<lparr>status = 500, body = Inr ''boom'', json = Inr ()\<rparr>)
          (staff_page_of (staff_button label_confirm)))
     = [''Erro ao confirmar: HTTP 500 - boom'']
   \<and> reloads (openConfirm (Resolved \<lparr>status = 204, body = Inr [], json = Inr ()\<rparr>)
          (staff_page_of (staff_button label_confirm)))
     = 1
   \<and> alerts (openDeny None (Resolved \<lparr>status = 500, body = Inr ''boom'', json = Inr ()\<rparr>)
          (staff_page_of (staff_button label_confirm)))
     = [''Erro ao negar: HTTP 500 - boom'']
   \<and> textContent (btn (submitFinalize True (Resolved \<lparr>status = 500, body = Inr ''boom'', json = Inr ()\<rparr>)
          (staff_page_of (staff_button label_confirm))))
     = label_finalize
   \<and> textContent (btn (submitNoShow True (Resolved \<lparr>status = 500, body = Inr ''boom'', json = Inr ()\<rparr>)
          (staff_page_of (staff_button label_confirm))))
     = label_noshow"
proof -
  have s: "showNat 500 = ''500''"
    by (simp add: showNat.simps[of 500] showNat.simps[of 50] showNat.simps[of 5])
  show ?thesis
    using failed_post_resets_button[of None "staff_page_of (staff_button label_confirm)"
            "Resolved \<lparr>status = 500, body = Inr ''boom'', json = Inr ()\<rparr>"]
          failed_post_resets_button[of None "staff_page_of (staff_button label_confirm)"
            "Resolved \<lparr>status = 204, body = Inr [], json = Inr ()\<rparr>"]
    by (simp add: attr_def failure_def s staff_page_of_def staff_button_def)
qed

text \<open>
  Claim C8 as stated fails on a button rendered with another label: after the failed
  POST the label is the fixed one, not the label the button had.
\<close>

theorem original_label_counterexample:
  "textContent (btn (openConfirm (Rejected (JsError ''TypeError'' ''Failed to fetch''))
      \<lparr>btn = \<lparr>disabled = False, textContent = ''Confirmar'', dataset = [(''confirmUrl'', ''/solicitacoes/5/confirmar/'')]\<rparr>,
       alerts = [], reloads = 0, requests = []\<rparr>))
     \<noteq> ''Confirmar''"
  by (simp add: openConfirm_def postForm_def settle_def Let_def attr_def label_confirm_def)

end
